theory Spec2Isabelle
  imports Main "HOL-Library.Word"
begin

section \<open>Shared data: errors, object metadata, config maps, certificates\<close>

text \<open>
  Go errors are values. The constructors keep apart the API status reasons the code
  tests with \<open>apierrors.IsNotFound\<close>, the error built by \<open>fmt.Errorf("not watching
  namespace %q", ns)\<close>, and every other error (decode, encode, network). A run-time
  panic (indexing an empty slice) is an outcome of its own, \<open>IndexOutOfRange\<close>.
\<close>

datatype error =
    NotFound string
  | AlreadyExists string
  | Conflict string
  | NotWatchingNamespace string
  | OtherError string
  | IndexOutOfRange

fun IsNotFound :: "error \<Rightarrow> bool" where
  "IsNotFound (NotFound _) = True"
| "IsNotFound _ = False"

text \<open>
  \<open>metav1.ObjectMeta\<close> with the fields that identify and version an object, and
  \<open>corev1.ConfigMap\<close>. A Go map is \<open>nil\<close> (\<open>None\<close>) or a finite map; reading a key
  of a nil map gives the zero value, as reading a missing key does.
\<close>

record ObjectMeta =
  meta_Namespace :: string
  meta_Name :: string
  meta_ResourceVersion :: string
  meta_Labels :: "(string \<rightharpoonup> string) option"
  meta_Annotations :: "(string \<rightharpoonup> string) option"

record ConfigMap =
  cm_ObjectMeta :: ObjectMeta
  cm_Data :: "(string \<rightharpoonup> string) option"
  cm_BinaryData :: "(string \<rightharpoonup> 8 word list) option"

text \<open>
  \<open>x509.Certificate\<close>: the raw DER bytes and the end of the validity window. Instants
  of \<open>time.Time\<close> are integers; \<open>t.After(u)\<close> is \<open>u < t\<close>. The \<open>Raw\<close> of a parsed
  certificate is a non-nil byte slice, so \<open>reflect.DeepEqual\<close> on two of them is
  equality of the byte sequences.
\<close>

record Certificate =
  Raw :: "8 word list"
  NotAfter :: int

text \<open>\<open>crypto.CA\<close>: only \<open>Config.Certs\<close> is read.\<close>

record CA =
  Config_Certs :: "Certificate list"

section \<open>The certificate bundle\<close>

text \<open>
  Modelled from the spec: \<open>crypto.FilterExpiredCerts\<close>, a function of the repository's
  \<open>crypto\<close> package whose source is missing. The spec's expiry invariant says that
  every certificate of the output bundle has its not-after strictly after the
  reconciliation timestamp, and that the comparison is strict with no clock-skew
  leniency; so a certificate is kept exactly when \<open>now < NotAfter\<close>. The clock read
  (\<open>time.Now()\<close>) is the argument \<open>now\<close>.
\<close>

fun FilterExpiredCerts :: "int \<Rightarrow> Certificate list \<Rightarrow> Certificate list" where
  "FilterExpiredCerts now [] = []"
| "FilterExpiredCerts now (c # certs) =
     (if now < NotAfter c then c # FilterExpiredCerts now certs
      else FilterExpiredCerts now certs)"

text \<open>
  The inner loop of the duplicate check: is there a \<open>j\<close> with
  \<open>certificates[i].Raw\<close> deeply equal to \<open>finalCertificates[j].Raw\<close>.
\<close>

fun foundRaw :: "Certificate \<Rightarrow> Certificate list \<Rightarrow> bool" where
  "foundRaw c [] = False"
| "foundRaw c (f # final) = (if Raw c = Raw f then True else foundRaw c final)"

text \<open>The outer loop: \<open>finalCertificates\<close> is the accumulator, appended to at its end.\<close>

fun dedupLoop :: "Certificate list \<Rightarrow> Certificate list \<Rightarrow> Certificate list" where
  "dedupLoop [] finalCertificates = finalCertificates"
| "dedupLoop (c # certificates) finalCertificates =
     dedupLoop certificates
       (if \<not> foundRaw c finalCertificates then finalCertificates @ [c]
        else finalCertificates)"

text \<open>
  The spec's words for the same step: deduplicate by exact raw-byte equality, preserving
  first-seen order. The first certificate is kept and every later one with its bytes is
  dropped.
\<close>

fun firstSeenDedup :: "Certificate list \<Rightarrow> Certificate list" where
  "firstSeenDedup [] = []"
| "firstSeenDedup (c # cs) = c # firstSeenDedup (filter (\<lambda>d. Raw d \<noteq> Raw c) cs)"

text \<open>The value read by \<open>caBundleConfigMap.Data["ca-bundle.crt"]\<close>.\<close>

definition dataMap :: "ConfigMap \<Rightarrow> (string \<rightharpoonup> string)" where
  "dataMap cm = (case cm_Data cm of None \<Rightarrow> Map.empty | Some m \<Rightarrow> m)"

definition storedBundle :: "ConfigMap \<Rightarrow> string" where
  "storedBundle cm = (case dataMap cm ''ca-bundle.crt'' of None \<Rightarrow> [] | Some s \<Rightarrow> s)"

text \<open>
  \<open>manageCABundleConfigMap\<close>. The function mutates the config map it is given and
  returns an error or nil; the model returns both the error and the config map as the
  call leaves it. \<open>cert.ParseCertsPEM\<close> (of the Kubernetes client library) and
  \<open>crypto.EncodeCertificates\<close> (of the repository's \<open>crypto\<close> package) are the
  parameters \<open>ParseCertsPEM\<close> and \<open>EncodeCertificates\<close>.
\<close>

definition manageCABundleConfigMap ::
  "(string \<Rightarrow> error + Certificate list) \<Rightarrow> (Certificate list \<Rightarrow> error + string) \<Rightarrow> int \<Rightarrow>
   ConfigMap \<Rightarrow> Certificate \<Rightarrow> error option \<times> ConfigMap" where
  "manageCABundleConfigMap ParseCertsPEM EncodeCertificates now caBundleConfigMap currentSigner =
    (let cm1 = (if cm_Data caBundleConfigMap = None
                then caBundleConfigMap\<lparr>cm_Data := Some Map.empty\<rparr>
                else caBundleConfigMap);
         caBundle = storedBundle cm1
     in case (if length caBundle > 0 then ParseCertsPEM caBundle else Inr []) of
          Inl err \<Rightarrow> (Some err, cm1)
        | Inr parsed \<Rightarrow>
            (let certificates = currentSigner # parsed;
                 certificates = FilterExpiredCerts now certificates;
                 finalCertificates = dedupLoop certificates []
             in case EncodeCertificates finalCertificates of
                  Inl err \<Rightarrow> (Some err, cm1)
                | Inr caBytes \<Rightarrow>
                    (None, cm1\<lparr>cm_Data := Some ((dataMap cm1)(''ca-bundle.crt'' \<mapsto> caBytes))\<rparr>)))"

text \<open>
  \<open>CABundleRotation\<close>. Its lister, client and event recorder are Go interfaces; they
  are functions over a world \<open>'w\<close> that the caller supplies. A lister read does not
  change the world; an update, a create and an event do.
\<close>

record 'w CABundleRotation =
  rot_Namespace :: string
  rot_Name :: string
  Lister_Get :: "string \<Rightarrow> string \<Rightarrow> 'w \<Rightarrow> error + ConfigMap"
  Client_Update :: "string \<Rightarrow> ConfigMap \<Rightarrow> 'w \<Rightarrow> (error + ConfigMap) \<times> 'w"
  Client_Create :: "string \<Rightarrow> ConfigMap \<Rightarrow> 'w \<Rightarrow> (error + ConfigMap) \<times> 'w"
  EventRecorder_Eventf :: "string \<Rightarrow> string \<Rightarrow> string list \<Rightarrow> 'w \<Rightarrow> 'w"

definition emptyObjectMeta :: ObjectMeta where
  "emptyObjectMeta = \<lparr>meta_Namespace = [], meta_Name = [], meta_ResourceVersion = [],
     meta_Labels = None, meta_Annotations = None\<rparr>"

text \<open>
  The body of the write-back branch of \<open>ensureConfigMapCABundle\<close> (the \<open>if\<close> that
  compares the data maps): the event, the update, and the create that follows an update
  answered with "not found".
\<close>

definition writeCABundle :: "'w CABundleRotation \<Rightarrow> ConfigMap \<Rightarrow> 'w \<Rightarrow> error option \<times> 'w" where
  "writeCABundle c caBundleConfigMap w =
    (let w1 = EventRecorder_Eventf c ''CABundleUpdateRequired'' ''%q in %q requires a new cert''
                [rot_Namespace c, rot_Name c] w
     in case Client_Update c (rot_Namespace c) caBundleConfigMap w1 of
          (Inl err, w2) \<Rightarrow>
            (if IsNotFound err
             then (case Client_Create c (rot_Namespace c) caBundleConfigMap w2 of
                     (Inl err', w3) \<Rightarrow> (Some err', w3)
                   | (Inr actual, w3) \<Rightarrow> (None, w3))
             else (Some err, w2))
        | (Inr actual, w2) \<Rightarrow> (None, w2))"

text \<open>
  \<open>ensureConfigMapCABundle\<close>. The lister answers \<open>Inl err\<close> (with a nil object) or
  \<open>Inr\<close> the object; \<open>original\<close> is \<open>None\<close> for the nil pointer. The deep copy of
  the original is the value itself. \<open>Config.Certs[0]\<close> panics on an empty slice.
  \<open>equality.Semantic.DeepEqual\<close> on two non-nil string maps is equality of the maps.
\<close>

definition ensureConfigMapCABundle ::
  "(string \<Rightarrow> error + Certificate list) \<Rightarrow> (Certificate list \<Rightarrow> error + string) \<Rightarrow> int \<Rightarrow>
   'w CABundleRotation \<Rightarrow> CA \<Rightarrow> 'w \<Rightarrow> error option \<times> 'w" where
  "ensureConfigMapCABundle ParseCertsPEM EncodeCertificates now c signingCertKeyPair w =
    (let got = Lister_Get c (rot_Namespace c) (rot_Name c) w
     in case (case got of Inl err \<Rightarrow> if \<not> IsNotFound err then Some err else None | Inr _ \<Rightarrow> None) of
          Some err \<Rightarrow> (Some err, w)
        | None \<Rightarrow>
            (let original = (case got of Inl _ \<Rightarrow> None | Inr cm \<Rightarrow> Some cm);
                 caBundleConfigMap =
                   (case got of
                      Inl _ \<Rightarrow> \<lparr>cm_ObjectMeta = emptyObjectMeta\<lparr>meta_Namespace := rot_Namespace c,
                                  meta_Name := rot_Name c\<rparr>, cm_Data = None, cm_BinaryData = None\<rparr>
                    | Inr cm \<Rightarrow> cm)
             in case Config_Certs signingCertKeyPair of
                  [] \<Rightarrow> (Some IndexOutOfRange, w)
                | currentSigner # _ \<Rightarrow>
                    (case manageCABundleConfigMap ParseCertsPEM EncodeCertificates now
                            caBundleConfigMap currentSigner of
                       (Some err, _) \<Rightarrow> (Some err, w)
                     | (None, managed) \<Rightarrow>
                         (if (case original of
                                None \<Rightarrow> True
                              | Some orig \<Rightarrow> cm_Data orig = None \<or> cm_Data orig \<noteq> cm_Data managed)
                          then writeCABundle c managed w
                          else (None, w)))))"

text \<open>
  A store that answers as the API server does when nothing else writes to it, with the
  actions it was asked to perform recorded in order: the lister reads the stored
  object, an update needs the object to exist, a create needs it not to.
\<close>

datatype action =
    EventAction string string "string list"
  | UpdateAction string ConfigMap
  | CreateAction string ConfigMap

record fake =
  objects :: "(string \<times> string) \<rightharpoonup> ConfigMap"
  actions :: "action list"

definition fakeGet :: "string \<Rightarrow> string \<Rightarrow> fake \<Rightarrow> error + ConfigMap" where
  "fakeGet ns name w = (case objects w (ns, name) of None \<Rightarrow> Inl (NotFound name) | Some cm \<Rightarrow> Inr cm)"

definition fakeUpdate :: "string \<Rightarrow> ConfigMap \<Rightarrow> fake \<Rightarrow> (error + ConfigMap) \<times> fake" where
  "fakeUpdate ns cm w =
    (let name = meta_Name (cm_ObjectMeta cm);
         w1 = w\<lparr>actions := actions w @ [UpdateAction ns cm]\<rparr>
     in case objects w (ns, name) of
          None \<Rightarrow> (Inl (NotFound name), w1)
        | Some _ \<Rightarrow> (Inr cm, w1\<lparr>objects := (objects w)((ns, name) \<mapsto> cm)\<rparr>))"

definition fakeCreate :: "string \<Rightarrow> ConfigMap \<Rightarrow> fake \<Rightarrow> (error + ConfigMap) \<times> fake" where
  "fakeCreate ns cm w =
    (let name = meta_Name (cm_ObjectMeta cm);
         w1 = w\<lparr>actions := actions w @ [CreateAction ns cm]\<rparr>
     in case objects w (ns, name) of
          Some _ \<Rightarrow> (Inl (AlreadyExists name), w1)
        | None \<Rightarrow> (Inr cm, w1\<lparr>objects := (objects w)((ns, name) \<mapsto> cm)\<rparr>))"

definition fakeEventf :: "string \<Rightarrow> string \<Rightarrow> string list \<Rightarrow> fake \<Rightarrow> fake" where
  "fakeEventf reason messageFmt args w = w\<lparr>actions := actions w @ [EventAction reason messageFmt args]\<rparr>"

definition fakeRotation :: "string \<Rightarrow> string \<Rightarrow> fake CABundleRotation" where
  "fakeRotation ns name =
     \<lparr>rot_Namespace = ns, rot_Name = name, Lister_Get = fakeGet, Client_Update = fakeUpdate,
      Client_Create = fakeCreate, EventRecorder_Eventf = fakeEventf\<rparr>"

text \<open>
  A scripted environment, for runs in which other writers race with this one: the
  answers of the lister, of the update and of the create are given, and the world is
  the list of actions performed.
\<close>

definition scriptedRotation ::
  "string \<Rightarrow> string \<Rightarrow> (error + ConfigMap) \<Rightarrow> (ConfigMap \<Rightarrow> error + ConfigMap) \<Rightarrow>
   (ConfigMap \<Rightarrow> error + ConfigMap) \<Rightarrow> (action list) CABundleRotation" where
  "scriptedRotation ns name got updated created =
     \<lparr>rot_Namespace = ns, rot_Name = name,
      Lister_Get = (\<lambda>_ _ _. got),
      Client_Update = (\<lambda>n cm w. (updated cm, w @ [UpdateAction n cm])),
      Client_Create = (\<lambda>n cm w. (created cm, w @ [CreateAction n cm])),
      EventRecorder_Eventf = (\<lambda>reason messageFmt args w. w @ [EventAction reason messageFmt args])\<rparr>"

section \<open>The resource sync controller\<close>

text \<open>
  Modelled from the spec: \<open>ResourceLocation\<close> and \<open>emptyResourceLocation\<close>, which are
  declared in another file of the package, which is missing. A location is a namespace and
  a name, a value compared by both; the distinguished empty location, with neither, is
  the sentinel for "no source: delete the destination".
\<close>

record ResourceLocation =
  loc_Namespace :: string
  loc_Name :: string

definition emptyResourceLocation :: ResourceLocation where
  "emptyResourceLocation = \<lparr>loc_Namespace = [], loc_Name = []\<rparr>"

text \<open>
  The controller's own state: the two rule tables (destination to source), the watched
  namespaces, and the work queue as the keys handed to \<open>queue.Add\<close>, oldest first.
  The lock serialises registrations and passes; each function here is one critical
  section.
\<close>

record ResourceSyncController =
  configMapSyncRules :: "ResourceLocation \<rightharpoonup> ResourceLocation"
  secretSyncRules :: "ResourceLocation \<rightharpoonup> ResourceLocation"
  knownNamespaces :: "string set"
  queue :: "string list"

definition controllerWorkQueueKey :: string where
  "controllerWorkQueueKey = ''key''"

definition operatorStatusResourceSyncControllerFailing :: string where
  "operatorStatusResourceSyncControllerFailing = ''ResourceSyncControllerFailing''"

definition SyncConfigMap ::
  "ResourceSyncController \<Rightarrow> ResourceLocation \<Rightarrow> ResourceLocation \<Rightarrow>
   error option \<times> ResourceSyncController" where
  "SyncConfigMap c destination source =
    (if loc_Namespace destination \<notin> knownNamespaces c
     then (Some (NotWatchingNamespace (loc_Namespace destination)), c)
     else if source \<noteq> emptyResourceLocation \<and> loc_Namespace source \<notin> knownNamespaces c
     then (Some (NotWatchingNamespace (loc_Namespace source)), c)
     else (None, c\<lparr>configMapSyncRules := (configMapSyncRules c)(destination \<mapsto> source),
                    queue := queue c @ [controllerWorkQueueKey]\<rparr>))"

definition SyncSecret ::
  "ResourceSyncController \<Rightarrow> ResourceLocation \<Rightarrow> ResourceLocation \<Rightarrow>
   error option \<times> ResourceSyncController" where
  "SyncSecret c destination source =
    (if loc_Namespace destination \<notin> knownNamespaces c
     then (Some (NotWatchingNamespace (loc_Namespace destination)), c)
     else if source \<noteq> emptyResourceLocation \<and> loc_Namespace source \<notin> knownNamespaces c
     then (Some (NotWatchingNamespace (loc_Namespace source)), c)
     else (None, c\<lparr>secretSyncRules := (secretSyncRules c)(destination \<mapsto> source),
                    queue := queue c @ [controllerWorkQueueKey]\<rparr>))"

text \<open>
  \<open>operatorv1.ManagementState\<close> is a string type with named constants, and
  \<open>operatorv1.OperatorCondition\<close> a struct.
\<close>

type_synonym ManagementState = string

definition Managed :: ManagementState where "Managed = ''Managed''"
definition Unmanaged :: ManagementState where "Unmanaged = ''Unmanaged''"
definition Removed :: ManagementState where "Removed = ''Removed''"

datatype ConditionStatus = ConditionTrue | ConditionFalse | ConditionUnknown

record OperatorCondition =
  cond_Type :: string
  cond_Status :: ConditionStatus
  cond_Reason :: string
  cond_Message :: string

text \<open>
  The calls a pass makes on its collaborators: the operator client's \<open>Get\<close>, the
  delete of a destination, \<open>resourceapply.SyncConfigMap\<close> or \<open>SyncSecret\<close> from a
  source to a destination (always with no owner references), and
  \<open>common.UpdateStatus\<close> with the function that sets a condition. The environment of
  a pass gives the answer to each call; the calls of one pass are pairwise different, so
  an answer per call describes any pass.
\<close>

datatype kind = ConfigMaps | Secrets

datatype call =
    OperatorGet
  | Delete kind ResourceLocation
  | ApplySync kind ResourceLocation ResourceLocation
  | UpdateStatus OperatorCondition

record env =
  getResp :: "error + ManagementState"
  callResp :: "call \<Rightarrow> error option"

text \<open>
  One \<open>for destination, source := range rules\<close> loop of \<open>sync\<close>, over the entries in
  the order the range visits them; the state is the \<open>errors\<close> slice and the calls made
  so far. The two loops of the source differ in the resource kind only.
\<close>

fun syncRules ::
  "env \<Rightarrow> kind \<Rightarrow> (ResourceLocation \<times> ResourceLocation) list \<Rightarrow> error list \<times> call list \<Rightarrow>
   error list \<times> call list" where
  "syncRules e k [] (errors, calls) = (errors, calls)"
| "syncRules e k ((destination, source) # rest) (errors, calls) =
     (if source = emptyResourceLocation
      then syncRules e k rest
             (case callResp e (Delete k destination) of
                Some err \<Rightarrow> if \<not> IsNotFound err then errors @ [err] else errors
              | None \<Rightarrow> errors,
              calls @ [Delete k destination])
      else syncRules e k rest
             (case callResp e (ApplySync k source destination) of
                Some err \<Rightarrow> errors @ [err]
              | None \<Rightarrow> errors,
              calls @ [ApplySync k source destination]))"

text \<open>
  Go visits the entries of a map once each, in an order it does not fix. The order is
  an argument: a list of destinations, of which those with a rule are visited.
\<close>

definition ruleEntries ::
  "(ResourceLocation \<rightharpoonup> ResourceLocation) \<Rightarrow> ResourceLocation list \<Rightarrow>
   (ResourceLocation \<times> ResourceLocation) list" where
  "ruleEntries rules order = List.map_filter (\<lambda>d. map_option (Pair d) (rules d)) order"

text \<open>
  \<open>ResourceSyncController.sync\<close>: the error it returns and the calls it made.
  \<open>common.NewMultiLineAggregate(errors).Error()\<close>, of another package, is the parameter
  \<open>NewMultiLineAggregate\<close>.
\<close>

definition sync ::
  "(error list \<Rightarrow> string) \<Rightarrow> env \<Rightarrow> ResourceSyncController \<Rightarrow> ResourceLocation list \<Rightarrow>
   ResourceLocation list \<Rightarrow> error option \<times> call list" where
  "sync NewMultiLineAggregate e c configMapOrder secretOrder =
    (case getResp e of
       Inl err \<Rightarrow> (Some err, [OperatorGet])
     | Inr managementState \<Rightarrow>
         (if managementState = Unmanaged then (None, [OperatorGet])
          else if managementState = Removed then (None, [OperatorGet])
          else
            (let (errors1, calls1) =
                   syncRules e ConfigMaps (ruleEntries (configMapSyncRules c) configMapOrder)
                     ([], [OperatorGet]);
                 (errors, calls) =
                   syncRules e Secrets (ruleEntries (secretSyncRules c) secretOrder)
                     (errors1, calls1)
             in if length errors > 0
                then (let cond = \<lparr>cond_Type = operatorStatusResourceSyncControllerFailing,
                                   cond_Status = ConditionTrue, cond_Reason = ''Error'',
                                   cond_Message = NewMultiLineAggregate errors\<rparr>
                      in (callResp e (UpdateStatus cond), calls @ [UpdateStatus cond]))
                else (let cond = \<lparr>cond_Type = operatorStatusResourceSyncControllerFailing,
                                   cond_Status = ConditionFalse, cond_Reason = [],
                                   cond_Message = []\<rparr>
                      in (callResp e (UpdateStatus cond), calls @ [UpdateStatus cond])))))"

text \<open>A sequence of registration calls, each through \<open>SyncConfigMap\<close> or \<open>SyncSecret\<close>.\<close>

datatype registration =
    RegisterConfigMap ResourceLocation ResourceLocation
  | RegisterSecret ResourceLocation ResourceLocation

fun register :: "ResourceSyncController \<Rightarrow> registration \<Rightarrow> ResourceSyncController" where
  "register c (RegisterConfigMap destination source) = snd (SyncConfigMap c destination source)"
| "register c (RegisterSecret destination source) = snd (SyncSecret c destination source)"

definition registerAll :: "ResourceSyncController \<Rightarrow> registration list \<Rightarrow> ResourceSyncController" where
  "registerAll c rs = foldl register c rs"

text \<open>
  The spec's words for the rule a table holds: the source of the most recent accepted
  registration of that kind for the destination, if there is one.
\<close>

fun registers :: "string set \<Rightarrow> kind \<Rightarrow> ResourceLocation \<Rightarrow> registration \<Rightarrow> ResourceLocation option" where
  "registers known ConfigMaps d (RegisterConfigMap destination source) =
     (if destination = d \<and> loc_Namespace destination \<in> known
         \<and> (source = emptyResourceLocation \<or> loc_Namespace source \<in> known)
      then Some source else None)"
| "registers known Secrets d (RegisterSecret destination source) =
     (if destination = d \<and> loc_Namespace destination \<in> known
         \<and> (source = emptyResourceLocation \<or> loc_Namespace source \<in> known)
      then Some source else None)"
| "registers known _ d _ = None"

fun mostRecent :: "string set \<Rightarrow> kind \<Rightarrow> ResourceLocation \<Rightarrow> registration list \<Rightarrow> ResourceLocation option" where
  "mostRecent known k d [] = None"
| "mostRecent known k d (r # rs) =
     (case mostRecent known k d rs of
        Some s \<Rightarrow> Some s
      | None \<Rightarrow> registers known k d r)"

section \<open>Sample data\<close>

text \<open>
  Three certificates and a bundle encoding over them, to run the definitions on: one
  letter stands for the PEM block of a certificate, blocks are concatenated in list
  order, and a letter that is no block, or a certificate that has none, is an error.
\<close>

definition certS :: Certificate where "certS = \<lparr>Raw = [1], NotAfter = 100\<rparr>"
definition certA :: Certificate where "certA = \<lparr>Raw = [2], NotAfter = 5\<rparr>"
definition certB :: Certificate where "certB = \<lparr>Raw = [3], NotAfter = 50\<rparr>"

definition sampleBlock :: "Certificate \<Rightarrow> char option" where
  "sampleBlock c =
     (if c = certS then Some CHR ''S'' else if c = certA then Some CHR ''A''
      else if c = certB then Some CHR ''B'' else None)"

definition sampleCertificate :: "char \<Rightarrow> Certificate option" where
  "sampleCertificate ch =
     (if ch = CHR ''S'' then Some certS else if ch = CHR ''A'' then Some certA
      else if ch = CHR ''B'' then Some certB else None)"

fun sampleEncodeCertificates :: "Certificate list \<Rightarrow> error + string" where
  "sampleEncodeCertificates [] = Inr []"
| "sampleEncodeCertificates (c # cs) =
     (case sampleBlock c of
        None \<Rightarrow> Inl (OtherError ''encode'')
      | Some ch \<Rightarrow>
          (case sampleEncodeCertificates cs of Inl err \<Rightarrow> Inl err | Inr s \<Rightarrow> Inr (ch # s)))"

fun sampleParseCertsPEM :: "string \<Rightarrow> error + Certificate list" where
  "sampleParseCertsPEM [] = Inr []"
| "sampleParseCertsPEM (ch # s) =
     (case sampleCertificate ch of
        None \<Rightarrow> Inl (OtherError ''decode'')
      | Some c \<Rightarrow>
          (case sampleParseCertsPEM s of Inl err \<Rightarrow> Inl err | Inr cs \<Rightarrow> Inr (c # cs)))"

definition sampleMeta :: ObjectMeta where
  "sampleMeta = \<lparr>meta_Namespace = ''ns'', meta_Name = ''bundle'', meta_ResourceVersion = ''7'',
     meta_Labels = None, meta_Annotations = None\<rparr>"

definition sampleConfigMap :: "string \<Rightarrow> ConfigMap" where
  "sampleConfigMap bundle =
     \<lparr>cm_ObjectMeta = sampleMeta,
      cm_Data = Some [''note'' \<mapsto> ''kept'', ''ca-bundle.crt'' \<mapsto> bundle],
      cm_BinaryData = None\<rparr>"

definition sampleCA :: CA where
  "sampleCA = \<lparr>Config_Certs = [certS]\<rparr>"

definition sampleNilDataConfigMap :: ConfigMap where
  "sampleNilDataConfigMap = \<lparr>cm_ObjectMeta = sampleMeta, cm_Data = None, cm_BinaryData = None\<rparr>"

definition sampleStore :: "string \<Rightarrow> fake" where
  "sampleStore bundle = \<lparr>objects = [(''ns'', ''bundle'') \<mapsto> sampleConfigMap bundle], actions = []\<rparr>"

text \<open>
  Words for the statements about a pass: the call a rule stands for, and the errors a
  call's answer adds to the aggregated set (a delete answered "not found" adds none).
\<close>

definition ruleCall :: "kind \<Rightarrow> ResourceLocation \<times> ResourceLocation \<Rightarrow> call" where
  "ruleCall k rule =
     (if snd rule = emptyResourceLocation then Delete k (fst rule)
      else ApplySync k (snd rule) (fst rule))"

fun recorded :: "env \<Rightarrow> call \<Rightarrow> error list" where
  "recorded e (Delete k d) =
     (case callResp e (Delete k d) of
        None \<Rightarrow> []
      | Some err \<Rightarrow> if IsNotFound err then [] else [err])"
| "recorded e call = (case callResp e call of None \<Rightarrow> [] | Some err \<Rightarrow> [err])"

fun ruleTable :: "kind \<Rightarrow> ResourceSyncController \<Rightarrow> (ResourceLocation \<rightharpoonup> ResourceLocation)" where
  "ruleTable ConfigMaps c = configMapSyncRules c"
| "ruleTable Secrets c = secretSyncRules c"

definition failingCondition :: "string \<Rightarrow> OperatorCondition" where
  "failingCondition message =
     \<lparr>cond_Type = ''ResourceSyncControllerFailing'', cond_Status = ConditionTrue,
      cond_Reason = ''Error'', cond_Message = message\<rparr>"

definition healthyCondition :: OperatorCondition where
  "healthyCondition =
     \<lparr>cond_Type = ''ResourceSyncControllerFailing'', cond_Status = ConditionFalse,
      cond_Reason = [], cond_Message = []\<rparr>"

text \<open>A controller, three rules and the answers of one pass, to run the definitions on.\<close>

definition locA :: ResourceLocation where "locA = \<lparr>loc_Namespace = ''ns'', loc_Name = ''a''\<rparr>"
definition locB :: ResourceLocation where "locB = \<lparr>loc_Namespace = ''ns'', loc_Name = ''b''\<rparr>"
definition locC :: ResourceLocation where "locC = \<lparr>loc_Namespace = ''ns'', loc_Name = ''c''\<rparr>"
definition locSrc :: ResourceLocation where "locSrc = \<lparr>loc_Namespace = ''src'', loc_Name = ''s''\<rparr>"
definition locSrc2 :: ResourceLocation where "locSrc2 = \<lparr>loc_Namespace = ''src'', loc_Name = ''t''\<rparr>"
definition locElsewhere :: ResourceLocation where
  "locElsewhere = \<lparr>loc_Namespace = ''elsewhere'', loc_Name = ''a''\<rparr>"

definition sampleController :: ResourceSyncController where
  "sampleController =
     \<lparr>configMapSyncRules = [locA \<mapsto> locSrc, locB \<mapsto> emptyResourceLocation],
      secretSyncRules = [locC \<mapsto> locSrc],
      knownNamespaces = {''ns'', ''src''},
      queue = []\<rparr>"

definition sampleErrorText :: "error \<Rightarrow> string" where
  "sampleErrorText err =
     (case err of NotFound s \<Rightarrow> s | AlreadyExists s \<Rightarrow> s | Conflict s \<Rightarrow> s
      | NotWatchingNamespace s \<Rightarrow> s | OtherError s \<Rightarrow> s | IndexOutOfRange \<Rightarrow> ''index out of range'')"

fun sampleMultiLineAggregate :: "error list \<Rightarrow> string" where
  "sampleMultiLineAggregate [] = []"
| "sampleMultiLineAggregate [err] = sampleErrorText err"
| "sampleMultiLineAggregate (err # errs) =
     sampleErrorText err @ [CHR 0x0A] @ sampleMultiLineAggregate errs"

definition sampleAnswers :: "call \<Rightarrow> error option" where
  "sampleAnswers call =
     (if call = ApplySync ConfigMaps locSrc locA then Some (OtherError ''copy of a failed'')
      else if call = Delete ConfigMaps locB then Some (NotFound ''b'')
      else None)"

definition sampleEnv :: "ManagementState \<Rightarrow> env" where
  "sampleEnv state = \<lparr>getResp = Inr state, callResp = sampleAnswers\<rparr>"

definition sampleEnvGetFails :: env where
  "sampleEnvGetFails = \<lparr>getResp = Inl (OtherError ''operator config unavailable''),
     callResp = sampleAnswers\<rparr>"

definition sampleEvent :: action where
  "sampleEvent = EventAction ''CABundleUpdateRequired'' ''%q in %q requires a new cert''
     [''ns'', ''bundle'']"

definition sampleFreshConfigMap :: "string \<Rightarrow> ConfigMap" where
  "sampleFreshConfigMap bundle =
     \<lparr>cm_ObjectMeta = emptyObjectMeta\<lparr>meta_Namespace := ''ns'', meta_Name := ''bundle''\<rparr>,
      cm_Data = Some [''ca-bundle.crt'' \<mapsto> bundle], cm_BinaryData = None\<rparr>"

text \<open>
  Two races: the object is absent when read and when updated, and another writer has
  created it by the time of the create; and the object is removed between the read and
  the update, and the create succeeds.
\<close>

definition sampleRecreatedRotation :: "(action list) CABundleRotation" where
  "sampleRecreatedRotation =
     scriptedRotation ''ns'' ''bundle'' (Inl (NotFound ''bundle''))
       (\<lambda>cm. Inl (NotFound ''bundle'')) (\<lambda>cm. Inl (AlreadyExists ''bundle''))"

definition sampleRemovedRotation :: "(action list) CABundleRotation" where
  "sampleRemovedRotation =
     scriptedRotation ''ns'' ''bundle'' (Inr (sampleConfigMap ''A''))
       (\<lambda>cm. Inl (NotFound ''bundle'')) (\<lambda>cm. Inr cm)"

definition sampleStoreAfterUpdate :: "string \<Rightarrow> fake" where
  "sampleStoreAfterUpdate bundle =
     \<lparr>objects = [(''ns'', ''bundle'') \<mapsto> sampleConfigMap bundle],
      actions = [sampleEvent, UpdateAction ''ns'' (sampleConfigMap bundle)]\<rparr>"

definition sampleStoreAfterSecondUpdate :: "string \<Rightarrow> string \<Rightarrow> fake" where
  "sampleStoreAfterSecondUpdate bundle1 bundle2 =
     \<lparr>objects = [(''ns'', ''bundle'') \<mapsto> sampleConfigMap bundle2],
      actions = [sampleEvent, UpdateAction ''ns'' (sampleConfigMap bundle1),
                 sampleEvent, UpdateAction ''ns'' (sampleConfigMap bundle2)]\<rparr>"

section \<open>Properties of the certificate bundle\<close>

subsection \<open>The loops and the spec's words for them\<close>

lemma FilterExpiredCerts_filter:
  "FilterExpiredCerts now cs = filter (\<lambda>c. now < NotAfter c) cs"
  by (induction cs) auto

lemma foundRaw_iff: "foundRaw c fs \<longleftrightarrow> Raw c \<in> Raw ` set fs"
  by (induction fs) auto

lemma dedupLoop_acc:
  "dedupLoop cs acc = acc @ firstSeenDedup (filter (\<lambda>c. Raw c \<notin> Raw ` set acc) cs)"
proof (induction cs arbitrary: acc)
  case Nil
  show ?case by simp
next
  case (Cons c cs)
  show ?case
  proof (cases "Raw c \<in> Raw ` set acc")
    case True
    then show ?thesis using Cons.IH [of acc] by (simp add: foundRaw_iff)
  next
    case False
    have eq: "filter (\<lambda>d. Raw d \<notin> Raw ` set (acc @ [c])) cs
                = filter (\<lambda>d. Raw d \<noteq> Raw c) (filter (\<lambda>d. Raw d \<notin> Raw ` set acc) cs)"
      by (induction cs) auto
    have eq': "filter (\<lambda>d. Raw d \<noteq> Raw c \<and> Raw d \<notin> Raw ` set acc) cs
                = filter (\<lambda>d. Raw d \<notin> Raw ` set acc \<and> Raw d \<noteq> Raw c) cs"
      by (rule filter_cong) auto
    show ?thesis using False Cons.IH [of "acc @ [c]"] by (simp add: foundRaw_iff eq eq')
  qed
qed

lemma dedupLoop_firstSeenDedup: "dedupLoop cs [] = firstSeenDedup cs"
  by (simp add: dedupLoop_acc)

lemma set_firstSeenDedup_subset: "set (firstSeenDedup cs) \<subseteq> set cs"
  by (induction cs rule: firstSeenDedup.induct) auto

lemma raws_firstSeenDedup: "Raw ` set (firstSeenDedup cs) = Raw ` set cs"
  by (induction cs rule: firstSeenDedup.induct) auto

lemma distinct_firstSeenDedup: "distinct (map Raw (firstSeenDedup cs))"
proof (induction cs rule: firstSeenDedup.induct)
  case 1
  show ?case by simp
next
  case (2 c cs)
  have "Raw c \<notin> Raw ` set (firstSeenDedup (filter (\<lambda>d. Raw d \<noteq> Raw c) cs))"
    by (auto simp add: raws_firstSeenDedup)
  with 2 show ?case by simp
qed

lemma once_distinct_raw:
  "distinct (map Raw xs) \<Longrightarrow> r \<in> Raw ` set xs \<Longrightarrow> length (filter (\<lambda>d. Raw d = r) xs) = 1"
proof (induction xs)
  case Nil
  then show ?case by simp
next
  case (Cons x xs)
  show ?case
  proof (cases "Raw x = r")
    case True
    from Cons.prems True have "r \<notin> Raw ` set xs" by simp
    then have "\<forall>d\<in>set xs. Raw d \<noteq> r" by blast
    then have "filter (\<lambda>d. Raw d = r) xs = []"
      by (simp add: filter_empty_conv)
    with True show ?thesis by simp
  next
    case False
    with Cons show ?thesis by auto
  qed
qed

lemma once_firstSeenDedup:
  "c \<in> set cs \<Longrightarrow> length (filter (\<lambda>d. Raw d = Raw c) (firstSeenDedup cs)) = 1"
  by (rule once_distinct_raw [OF distinct_firstSeenDedup]) (simp add: raws_firstSeenDedup)

subsection \<open>What a successful call leaves in the config map\<close>

lemma storedBundle_nil_data:
  "storedBundle (cm\<lparr>cm_Data := Some Map.empty\<rparr>) = []"
  by (simp add: storedBundle_def dataMap_def)

lemma manage_success:
  assumes "manageCABundleConfigMap P E now cm signer = (None, cm')"
  shows "\<exists>existing blob.
      (if storedBundle cm = [] then Inr [] else P (storedBundle cm)) = Inr existing
    \<and> E (dedupLoop (FilterExpiredCerts now (signer # existing)) []) = Inr blob
    \<and> cm' = cm\<lparr>cm_Data := Some ((dataMap cm)(''ca-bundle.crt'' \<mapsto> blob))\<rparr>"
proof (cases "cm_Data cm")
  case None
  then have sb: "storedBundle cm = []" by (simp add: storedBundle_def dataMap_def)
  from assms None show ?thesis
    by (auto simp: manageCABundleConfigMap_def Let_def sb storedBundle_nil_data dataMap_def
        split: sum.splits)
next
  case (Some m)
  with assms show ?thesis
    by (auto simp: manageCABundleConfigMap_def Let_def split: sum.splits if_splits)
qed

lemma sample_simps:
  "sampleBlock certS = Some CHR ''S''" "sampleBlock certA = Some CHR ''A''"
  "sampleBlock certB = Some CHR ''B''"
  "sampleCertificate CHR ''S'' = Some certS" "sampleCertificate CHR ''A'' = Some certA"
  "sampleCertificate CHR ''B'' = Some certB"
  by (simp_all add: sampleBlock_def sampleCertificate_def certS_def certA_def certB_def)

lemma sample_certs:
  "Raw certS = [1]" "Raw certA = [2]" "Raw certB = [3]"
  "NotAfter certS = 100" "NotAfter certA = 5" "NotAfter certB = 50"
  by (simp_all add: certS_def certA_def certB_def)

lemma sample_manage:
  "manageCABundleConfigMap sampleParseCertsPEM sampleEncodeCertificates 10
     (sampleConfigMap ''ASB'') certS = (None, sampleConfigMap ''SB'')"
  by (simp add: manageCABundleConfigMap_def Let_def storedBundle_def dataMap_def sampleConfigMap_def
      sample_simps sample_certs)

text \<open>
  Claim C1. Whenever \<open>manageCABundleConfigMap\<close> succeeds, the stored bundle (if not
  empty) decoded to a list \<open>existing\<close>, and the blob written under \<open>ca-bundle.crt\<close>
  is the encoding of \<open>written\<close>, the first-seen-order deduplication by raw bytes of the
  non-expired certificates of \<open>signer # existing\<close>. Consequently the raw bytes of
  \<open>written\<close> are pairwise different, every non-expired certificate of the worklist
  occurs in it exactly once (by raw bytes), no certificate with not-after at or before
  \<open>now\<close> occurs in it, and a non-expired signer is its first entry.
\<close>

theorem manageCABundleConfigMap_bundle_contents:
  assumes "manageCABundleConfigMap P E now cm signer = (None, cm')"
  shows "\<exists>existing written blob.
      (if storedBundle cm = [] then Inr [] else P (storedBundle cm)) = Inr existing
    \<and> written = firstSeenDedup (filter (\<lambda>c. now < NotAfter c) (signer # existing))
    \<and> E written = Inr blob
    \<and> cm_Data cm' = Some ((dataMap cm)(''ca-bundle.crt'' \<mapsto> blob))
    \<and> distinct (map Raw written)
    \<and> (\<forall>c\<in>set (signer # existing). now < NotAfter c \<longrightarrow>
          length (filter (\<lambda>d. Raw d = Raw c) written) = 1)
    \<and> (\<forall>c\<in>set written. \<not> NotAfter c \<le> now)
    \<and> (now < NotAfter signer \<longrightarrow> written \<noteq> [] \<and> hd written = signer)"
proof -
  from manage_success [OF assms] obtain existing blob where
    ex: "(if storedBundle cm = [] then Inr [] else P (storedBundle cm)) = Inr existing"
    and enc: "E (dedupLoop (FilterExpiredCerts now (signer # existing)) []) = Inr blob"
    and cm': "cm' = cm\<lparr>cm_Data := Some ((dataMap cm)(''ca-bundle.crt'' \<mapsto> blob))\<rparr>"
    by blast
  define valid where "valid = filter (\<lambda>c. now < NotAfter c) (signer # existing)"
  define written where "written = firstSeenDedup valid"
  have code: "dedupLoop (FilterExpiredCerts now (signer # existing)) [] = written"
    by (simp only: written_def valid_def dedupLoop_firstSeenDedup FilterExpiredCerts_filter)
  have 1: "E written = Inr blob" using enc code by simp
  have 2: "cm_Data cm' = Some ((dataMap cm)(''ca-bundle.crt'' \<mapsto> blob))" using cm' by simp
  have 3: "distinct (map Raw written)" unfolding written_def by (rule distinct_firstSeenDedup)
  have 4: "\<forall>c\<in>set (signer # existing). now < NotAfter c \<longrightarrow>
          length (filter (\<lambda>d. Raw d = Raw c) written) = 1"
  proof (intro ballI impI)
    fix c assume "c \<in> set (signer # existing)" "now < NotAfter c"
    then have "c \<in> set valid" by (auto simp add: valid_def)
    then show "length (filter (\<lambda>d. Raw d = Raw c) written) = 1"
      unfolding written_def by (rule once_firstSeenDedup)
  qed
  have 5: "\<forall>c\<in>set written. \<not> NotAfter c \<le> now"
  proof
    fix c assume "c \<in> set written"
    then have "c \<in> set valid" using set_firstSeenDedup_subset [of valid] by (auto simp: written_def)
    then show "\<not> NotAfter c \<le> now" by (auto simp add: valid_def split: if_splits)
  qed
  have 6: "now < NotAfter signer \<longrightarrow> written \<noteq> [] \<and> hd written = signer"
    by (simp add: written_def valid_def)
  from ex 1 2 3 4 5 6 show ?thesis unfolding written_def valid_def by blast
qed

theorem manageCABundleConfigMap_bundle_contents_witness:
  "manageCABundleConfigMap sampleParseCertsPEM sampleEncodeCertificates 10
     (sampleConfigMap ''ASB'') certS = (None, sampleConfigMap ''SB'')
   \<and> sampleParseCertsPEM (storedBundle (sampleConfigMap ''ASB'')) = Inr [certA, certS, certB]
   \<and> firstSeenDedup (filter (\<lambda>c. 10 < NotAfter c) [certS, certA, certS, certB]) = [certS, certB]
   \<and> sampleEncodeCertificates [certS, certB] = Inr ''SB''
   \<and> storedBundle (sampleConfigMap ''SB'') = ''SB''"
  using manageCABundleConfigMap_bundle_contents [OF sample_manage] sample_manage
  by (simp add: storedBundle_def dataMap_def sampleConfigMap_def sample_simps sample_certs)

subsection \<open>The frame of a call, and a stored bundle that does not decode\<close>

lemma manage_frame:
  "cm_ObjectMeta (snd (manageCABundleConfigMap P E now cm signer)) = cm_ObjectMeta cm
   \<and> cm_BinaryData (snd (manageCABundleConfigMap P E now cm signer)) = cm_BinaryData cm"
  by (simp add: manageCABundleConfigMap_def Let_def split: sum.splits)

lemma manage_other_keys:
  "k \<noteq> ''ca-bundle.crt'' \<Longrightarrow>
     dataMap (snd (manageCABundleConfigMap P E now cm signer)) k = dataMap cm k"
  by (simp add: manageCABundleConfigMap_def Let_def dataMap_def split: sum.splits option.splits)

lemma manage_data_not_nil:
  "cm_Data (snd (manageCABundleConfigMap P E now cm signer)) \<noteq> None"
  by (simp add: manageCABundleConfigMap_def Let_def split: sum.splits)

lemma manage_nil_data:
  assumes "cm_Data cm = None"
  shows "manageCABundleConfigMap P E now cm signer =
      (case E (dedupLoop (FilterExpiredCerts now [signer]) []) of
         Inl err \<Rightarrow> (Some err, cm\<lparr>cm_Data := Some Map.empty\<rparr>)
       | Inr blob \<Rightarrow> (None, cm\<lparr>cm_Data := Some [''ca-bundle.crt'' \<mapsto> blob]\<rparr>))"
  using assms
  by (simp add: manageCABundleConfigMap_def Let_def storedBundle_nil_data dataMap_def
      split: sum.splits)

text \<open>
  Claim C10. Whatever \<open>manageCABundleConfigMap\<close> returns, the config map it leaves
  has the object metadata and the binary data it was given, and every key of its data
  map other than \<open>ca-bundle.crt\<close> reads as before; its data map is never nil. Given
  a nil data map, the call does not fail on it: the stored bundle reads as empty, nothing
  is decoded, and the result is the fresh map with the encoded bundle (or, if the
  encoding fails, the encoder's error and the fresh empty map).
\<close>

theorem manageCABundleConfigMap_frame:
  "cm_ObjectMeta (snd (manageCABundleConfigMap P E now cm signer)) = cm_ObjectMeta cm
   \<and> cm_BinaryData (snd (manageCABundleConfigMap P E now cm signer)) = cm_BinaryData cm
   \<and> (\<forall>k. k \<noteq> ''ca-bundle.crt'' \<longrightarrow>
         dataMap (snd (manageCABundleConfigMap P E now cm signer)) k = dataMap cm k)
   \<and> cm_Data (snd (manageCABundleConfigMap P E now cm signer)) \<noteq> None
   \<and> (cm_Data cm = None \<longrightarrow>
         manageCABundleConfigMap P E now cm signer =
           (case E (dedupLoop (FilterExpiredCerts now [signer]) []) of
              Inl err \<Rightarrow> (Some err, cm\<lparr>cm_Data := Some Map.empty\<rparr>)
            | Inr blob \<Rightarrow> (None, cm\<lparr>cm_Data := Some [''ca-bundle.crt'' \<mapsto> blob]\<rparr>)))"
  using manage_frame [of P E now cm signer] manage_other_keys [of _ P E now cm signer]
    manage_data_not_nil [of P E now cm signer] manage_nil_data [of cm P E now signer]
  by blast

theorem manageCABundleConfigMap_frame_witness:
  "manageCABundleConfigMap sampleParseCertsPEM sampleEncodeCertificates 10 sampleNilDataConfigMap certS
     = (None, sampleNilDataConfigMap\<lparr>cm_Data := Some [''ca-bundle.crt'' \<mapsto> ''S'']\<rparr>)
   \<and> cm_Data sampleNilDataConfigMap = None
   \<and> dataMap (snd (manageCABundleConfigMap sampleParseCertsPEM sampleEncodeCertificates 10
        (sampleConfigMap ''ASB'') certS)) ''note'' = Some ''kept''
   \<and> dataMap (sampleConfigMap ''ASB'') ''note'' = Some ''kept''
   \<and> cm_ObjectMeta (snd (manageCABundleConfigMap sampleParseCertsPEM sampleEncodeCertificates 10
        (sampleConfigMap ''ASB'') certS)) = sampleMeta"
  using manageCABundleConfigMap_frame [of sampleParseCertsPEM sampleEncodeCertificates 10
      sampleNilDataConfigMap certS]
    manageCABundleConfigMap_frame [of sampleParseCertsPEM sampleEncodeCertificates 10
      "sampleConfigMap ''ASB''" certS]
  by (simp add: sampleNilDataConfigMap_def sampleConfigMap_def dataMap_def sample_simps sample_certs)

lemma manage_decode_error:
  assumes "storedBundle cm \<noteq> []" and "P (storedBundle cm) = Inl err"
  shows "fst (manageCABundleConfigMap P E now cm signer) = Some err"
proof (cases "cm_Data cm")
  case None
  with assms(1) show ?thesis by (simp add: storedBundle_def dataMap_def)
next
  case (Some m)
  with assms show ?thesis by (simp add: manageCABundleConfigMap_def Let_def)
qed

text \<open>
  Claim C8. If the lister returns a config map whose stored bundle is not empty and
  does not decode, \<open>ensureConfigMapCABundle\<close> returns the decoder's error and the
  world is as it was: no event, no update and no create, whatever implements them.
\<close>

theorem ensureConfigMapCABundle_decode_error:
  assumes "Lister_Get c (rot_Namespace c) (rot_Name c) w = Inr stored"
    and "storedBundle stored \<noteq> []"
    and "P (storedBundle stored) = Inl err"
    and "Config_Certs ca = signer # rest"
  shows "ensureConfigMapCABundle P E now c ca w = (Some err, w)"
proof -
  obtain r cm' where m: "manageCABundleConfigMap P E now stored signer = (r, cm')"
    by (cases "manageCABundleConfigMap P E now stored signer")
  with manage_decode_error [where P = P and E = E and now = now and signer = signer, OF assms(2,3)] have "r = Some err" by simp
  with m assms(1,4) show ?thesis
    by (simp add: ensureConfigMapCABundle_def Let_def)
qed

lemma sample_get: "fakeGet ''ns'' ''bundle'' (sampleStore b) = Inr (sampleConfigMap b)"
  by (simp add: fakeGet_def sampleStore_def)

theorem ensureConfigMapCABundle_decode_error_witness:
  "ensureConfigMapCABundle sampleParseCertsPEM sampleEncodeCertificates 10
      (fakeRotation ''ns'' ''bundle'') sampleCA (sampleStore ''SX'')
     = (Some (OtherError ''decode''), sampleStore ''SX'')
   \<and> storedBundle (sampleConfigMap ''SX'') = ''SX''
   \<and> sampleParseCertsPEM ''SX'' = Inl (OtherError ''decode'')"
proof -
  have g: "Lister_Get (fakeRotation ''ns'' ''bundle'') (rot_Namespace (fakeRotation ''ns'' ''bundle''))
      (rot_Name (fakeRotation ''ns'' ''bundle'')) (sampleStore ''SX'') = Inr (sampleConfigMap ''SX'')"
    by (simp add: fakeRotation_def sample_get)
  have b: "storedBundle (sampleConfigMap ''SX'') = ''SX''"
    by (simp add: storedBundle_def dataMap_def sampleConfigMap_def)
  have p: "sampleParseCertsPEM ''SX'' = Inl (OtherError ''decode'')"
    by (simp add: sample_simps sampleCertificate_def)
  have n: "storedBundle (sampleConfigMap ''SX'') \<noteq> []" using b by simp
  have p': "sampleParseCertsPEM (storedBundle (sampleConfigMap ''SX'')) = Inl (OtherError ''decode'')"
    using b p by simp
  have c: "Config_Certs sampleCA = certS # []" by (simp add: sampleCA_def)
  from ensureConfigMapCABundle_decode_error [where P = sampleParseCertsPEM
      and E = sampleEncodeCertificates and now = 10, OF g n p' c] b p
  show ?thesis by simp
qed

section \<open>Properties of the resource sync controller\<close>

subsection \<open>Registration\<close>

text \<open>
  Claim C4. A registration through \<open>SyncConfigMap\<close> or \<open>SyncSecret\<close> whose destination
  namespace, or whose namespace of a source other than the empty location, is not
  watched returns the "not watching namespace" error for a namespace that is not
  watched and leaves the controller as it was: both rule tables and the queue. Any other
  registration returns no error, sets the rule of the destination in its own table and
  adds the queue key; nothing else changes.
\<close>

theorem registration_validates_namespaces:
  "(if loc_Namespace d \<notin> knownNamespaces c
       \<or> (s \<noteq> emptyResourceLocation \<and> loc_Namespace s \<notin> knownNamespaces c)
    then (\<exists>ns. ns \<notin> knownNamespaces c
            \<and> SyncConfigMap c d s = (Some (NotWatchingNamespace ns), c)
            \<and> SyncSecret c d s = (Some (NotWatchingNamespace ns), c))
    else fst (SyncConfigMap c d s) = None
       \<and> snd (SyncConfigMap c d s) =
           c\<lparr>configMapSyncRules := (configMapSyncRules c)(d \<mapsto> s),
              queue := queue c @ [controllerWorkQueueKey]\<rparr>
       \<and> fst (SyncSecret c d s) = None
       \<and> snd (SyncSecret c d s) =
           c\<lparr>secretSyncRules := (secretSyncRules c)(d \<mapsto> s),
              queue := queue c @ [controllerWorkQueueKey]\<rparr>)"
  by (auto simp: SyncConfigMap_def SyncSecret_def)

lemma sample_locs:
  "loc_Namespace locA = ''ns''" "loc_Namespace locB = ''ns''" "loc_Namespace locC = ''ns''"
  "loc_Namespace locSrc = ''src''" "loc_Namespace locSrc2 = ''src''"
  "loc_Namespace locElsewhere = ''elsewhere''"
  "knownNamespaces sampleController = {''ns'', ''src''}"
  by (simp_all add: locA_def locB_def locC_def locSrc_def locSrc2_def locElsewhere_def
      sampleController_def)

lemma sample_locs_distinct:
  "locSrc \<noteq> emptyResourceLocation" "locSrc2 \<noteq> emptyResourceLocation"
  "locElsewhere \<noteq> emptyResourceLocation" "locA \<noteq> emptyResourceLocation"
  "locA \<noteq> locB" "locB \<noteq> locA" "locA \<noteq> locC" "locC \<noteq> locA" "locB \<noteq> locC" "locC \<noteq> locB"
  by (simp_all add: locA_def locB_def locC_def locSrc_def locSrc2_def locElsewhere_def
      emptyResourceLocation_def)

theorem registration_validates_namespaces_witness:
  "SyncConfigMap sampleController locElsewhere locSrc
     = (Some (NotWatchingNamespace ''elsewhere''), sampleController)
   \<and> SyncSecret sampleController locA locElsewhere
     = (Some (NotWatchingNamespace ''elsewhere''), sampleController)
   \<and> SyncConfigMap sampleController locA emptyResourceLocation
     = (None, sampleController\<lparr>configMapSyncRules :=
                  (configMapSyncRules sampleController)(locA \<mapsto> emptyResourceLocation),
                queue := [''key'']\<rparr>)
   \<and> SyncSecret sampleController locC locSrc2
     = (None, sampleController\<lparr>secretSyncRules :=
                  (secretSyncRules sampleController)(locC \<mapsto> locSrc2),
                queue := [''key'']\<rparr>)"
proof -
  have q: "queue sampleController = []" by (simp add: sampleController_def)
  have 1: "SyncConfigMap sampleController locElsewhere locSrc
     = (Some (NotWatchingNamespace ''elsewhere''), sampleController)"
    using registration_validates_namespaces [of locElsewhere sampleController locSrc]
    by (simp add: sample_locs SyncConfigMap_def)
  have 2: "SyncSecret sampleController locA locElsewhere
     = (Some (NotWatchingNamespace ''elsewhere''), sampleController)"
    using registration_validates_namespaces [of locA sampleController locElsewhere]
    by (simp add: sample_locs sample_locs_distinct SyncSecret_def)
  have 3: "SyncConfigMap sampleController locA emptyResourceLocation
     = (None, sampleController\<lparr>configMapSyncRules :=
                  (configMapSyncRules sampleController)(locA \<mapsto> emptyResourceLocation),
                queue := [''key'']\<rparr>)"
    using registration_validates_namespaces [of locA sampleController emptyResourceLocation]
    by (simp add: sample_locs q controllerWorkQueueKey_def prod_eq_iff)
  have 4: "SyncSecret sampleController locC locSrc2
     = (None, sampleController\<lparr>secretSyncRules :=
                  (secretSyncRules sampleController)(locC \<mapsto> locSrc2),
                queue := [''key'']\<rparr>)"
    using registration_validates_namespaces [of locC sampleController locSrc2]
    by (simp add: sample_locs q controllerWorkQueueKey_def prod_eq_iff)
  from 1 2 3 4 show ?thesis by simp
qed

lemma register_knownNamespaces: "knownNamespaces (register c r) = knownNamespaces c"
  by (cases r) (simp_all add: SyncConfigMap_def SyncSecret_def)

lemma register_ruleTable:
  "ruleTable k (register c r) d =
     (case registers (knownNamespaces c) k d r of Some s \<Rightarrow> Some s | None \<Rightarrow> ruleTable k c d)"
  by (cases r; cases k) (auto simp: SyncConfigMap_def SyncSecret_def)

lemma registerAll_Cons: "registerAll c (r # rs) = registerAll (register c r) rs"
  by (simp add: registerAll_def)

lemma registerAll_ruleTable:
  "ruleTable k (registerAll c rs) d =
     (case mostRecent (knownNamespaces c) k d rs of Some s \<Rightarrow> Some s | None \<Rightarrow> ruleTable k c d)"
proof (induction rs arbitrary: c)
  case Nil
  show ?case by (simp add: registerAll_def)
next
  case (Cons r rs)
  show ?case
    using Cons.IH [of "register c r"]
    by (simp add: registerAll_Cons register_knownNamespaces register_ruleTable split: option.splits)
qed

text \<open>
  Claim C9. After any sequence of registrations, a rule table (a map, so with one
  source per destination) holds for every destination the source of the most recent
  accepted registration of that kind for it, and the rule it held before the sequence
  if there was none: a later registration replaces the earlier rule. The sequence is
  arbitrary, so this holds after every prefix of it.
\<close>

theorem registerAll_most_recent_source:
  "configMapSyncRules (registerAll c rs) d =
     (case mostRecent (knownNamespaces c) ConfigMaps d rs of
        Some s \<Rightarrow> Some s | None \<Rightarrow> configMapSyncRules c d)
   \<and> secretSyncRules (registerAll c rs) d =
     (case mostRecent (knownNamespaces c) Secrets d rs of
        Some s \<Rightarrow> Some s | None \<Rightarrow> secretSyncRules c d)"
  using registerAll_ruleTable [of ConfigMaps c rs d] registerAll_ruleTable [of Secrets c rs d]
  by (simp split: option.splits)

theorem registerAll_most_recent_source_witness:
  "configMapSyncRules (registerAll sampleController
       [RegisterConfigMap locA locSrc2, RegisterSecret locA locSrc,
        RegisterConfigMap locA locElsewhere, RegisterConfigMap locB locSrc]) locA = Some locSrc2
   \<and> mostRecent (knownNamespaces sampleController) ConfigMaps locA
       [RegisterConfigMap locA locSrc2, RegisterSecret locA locSrc,
        RegisterConfigMap locA locElsewhere, RegisterConfigMap locB locSrc] = Some locSrc2
   \<and> configMapSyncRules sampleController locA = Some locSrc
   \<and> secretSyncRules (registerAll sampleController
       [RegisterConfigMap locA locSrc2, RegisterSecret locA locSrc,
        RegisterConfigMap locA locElsewhere, RegisterConfigMap locB locSrc]) locC = Some locSrc"
  using registerAll_most_recent_source [of sampleController
       "[RegisterConfigMap locA locSrc2, RegisterSecret locA locSrc,
        RegisterConfigMap locA locElsewhere, RegisterConfigMap locB locSrc]" locA]
    registerAll_most_recent_source [of sampleController
       "[RegisterConfigMap locA locSrc2, RegisterSecret locA locSrc,
        RegisterConfigMap locA locElsewhere, RegisterConfigMap locB locSrc]" locC]
  by (simp add: sample_locs sample_locs_distinct sampleController_def)

subsection \<open>A reconciliation pass\<close>

text \<open>
  Claim C5. When the operator client reports the management state Unmanaged, or
  Removed, the pass returns no error and its only call is that read: no delete, no
  copy and no condition update.
\<close>

theorem sync_skipped_when_unmanaged_or_removed:
  assumes "getResp e = Inr state" and "state = Unmanaged \<or> state = Removed"
  shows "sync agg e c configMapOrder secretOrder = (None, [OperatorGet])"
  using assms by (auto simp: sync_def)

theorem sync_skipped_when_unmanaged_or_removed_witness:
  "sync sampleMultiLineAggregate (sampleEnv Unmanaged) sampleController [locA, locB] [locC]
     = (None, [OperatorGet])
   \<and> sync sampleMultiLineAggregate (sampleEnv Removed) sampleController [locA, locB] [locC]
     = (None, [OperatorGet])
   \<and> getResp (sampleEnv Unmanaged) = Inr Unmanaged
   \<and> getResp (sampleEnv Removed) = Inr Removed"
  using sync_skipped_when_unmanaged_or_removed [of "sampleEnv Unmanaged" Unmanaged
      sampleMultiLineAggregate sampleController "[locA, locB]" "[locC]"]
    sync_skipped_when_unmanaged_or_removed [of "sampleEnv Removed" Removed
      sampleMultiLineAggregate sampleController "[locA, locB]" "[locC]"]
  by (simp add: sampleEnv_def)

lemma syncRules_unfold:
  "syncRules e k rules (errors, calls) =
     (errors @ concat (map (\<lambda>r. recorded e (ruleCall k r)) rules), calls @ map (ruleCall k) rules)"
proof (induction rules arbitrary: errors calls)
  case Nil
  show ?case by simp
next
  case (Cons r rules)
  obtain d s where r: "r = (d, s)" by (cases r)
  show ?case
    by (simp add: r Cons.IH ruleCall_def split: option.splits)
qed

lemma ruleEntries_member:
  "rules d = Some s \<Longrightarrow> d \<in> set order \<Longrightarrow> (d, s) \<in> set (ruleEntries rules order)"
  by (induction order) (auto simp: ruleEntries_def split: option.splits)

lemma sync_get_fails:
  "getResp e = Inl err \<Longrightarrow> sync agg e c o1 o2 = (Some err, [OperatorGet])"
  by (simp add: sync_def)

lemma sync_proceeds:
  assumes "getResp e = Inr state" and "state \<noteq> Unmanaged" and "state \<noteq> Removed"
    and "calls = map (ruleCall ConfigMaps) (ruleEntries (configMapSyncRules c) o1)
                 @ map (ruleCall Secrets) (ruleEntries (secretSyncRules c) o2)"
    and "errors = concat (map (recorded e) calls)"
    and "cond = (if errors = [] then healthyCondition else failingCondition (agg errors))"
  shows "sync agg e c o1 o2 = (callResp e (UpdateStatus cond), OperatorGet # calls @ [UpdateStatus cond])"
  using assms
  by (simp add: sync_def syncRules_unfold Let_def healthyCondition_def failingCondition_def
      operatorStatusResourceSyncControllerFailing_def comp_def)

text \<open>
  Claim C2, as amended. A pass whose read of the operator state fails returns that
  error and makes no other call. A pass that reads a state other than Unmanaged and
  Removed makes, after the read, the call of every entry the two ranges visit (every
  rule, when the orders cover the tables), whatever the earlier calls answered, and then
  exactly one condition update. The errors collected are those the calls answered, in
  order, without the "not found" answers to deletes; the condition is the failing one,
  with the aggregate of the errors as message, if there are any, and the healthy one
  otherwise. The pass returns the answer of the condition update and no other error.
\<close>

theorem sync_collects_rule_errors:
  "(\<forall>err. getResp e = Inl err \<longrightarrow> sync agg e c o1 o2 = (Some err, [OperatorGet]))
   \<and> (\<forall>state. getResp e = Inr state \<and> state \<noteq> Unmanaged \<and> state \<noteq> Removed \<longrightarrow>
        (\<exists>calls errors cond.
            calls = map (ruleCall ConfigMaps) (ruleEntries (configMapSyncRules c) o1)
                    @ map (ruleCall Secrets) (ruleEntries (secretSyncRules c) o2)
          \<and> (\<forall>d s. configMapSyncRules c d = Some s \<and> d \<in> set o1 \<longrightarrow>
                 ruleCall ConfigMaps (d, s) \<in> set calls)
          \<and> (\<forall>d s. secretSyncRules c d = Some s \<and> d \<in> set o2 \<longrightarrow>
                 ruleCall Secrets (d, s) \<in> set calls)
          \<and> errors = concat (map (recorded e) calls)
          \<and> cond = (if errors = [] then healthyCondition else failingCondition (agg errors))
          \<and> sync agg e c o1 o2 =
              (callResp e (UpdateStatus cond), OperatorGet # calls @ [UpdateStatus cond])))"
proof (intro conjI allI impI)
  fix err assume "getResp e = Inl err"
  then show "sync agg e c o1 o2 = (Some err, [OperatorGet])" by (rule sync_get_fails)
next
  fix state assume a: "getResp e = Inr state \<and> state \<noteq> Unmanaged \<and> state \<noteq> Removed"
  define calls where "calls = map (ruleCall ConfigMaps) (ruleEntries (configMapSyncRules c) o1)
                    @ map (ruleCall Secrets) (ruleEntries (secretSyncRules c) o2)"
  define errors where "errors = concat (map (recorded e) calls)"
  define cond where "cond = (if errors = [] then healthyCondition else failingCondition (agg errors))"
  have 1: "\<forall>d s. configMapSyncRules c d = Some s \<and> d \<in> set o1 \<longrightarrow>
                 ruleCall ConfigMaps (d, s) \<in> set calls"
    using ruleEntries_member [of "configMapSyncRules c" _ _ o1] by (auto simp: calls_def)
  have 2: "\<forall>d s. secretSyncRules c d = Some s \<and> d \<in> set o2 \<longrightarrow>
                 ruleCall Secrets (d, s) \<in> set calls"
    using ruleEntries_member [of "secretSyncRules c" _ _ o2] by (auto simp: calls_def)
  have 3: "sync agg e c o1 o2 =
              (callResp e (UpdateStatus cond), OperatorGet # calls @ [UpdateStatus cond])"
    using a sync_proceeds [where agg = agg and e = e and state = state, OF _ _ _ calls_def errors_def cond_def]
    by blast
  from 1 2 3 calls_def errors_def cond_def
  show "\<exists>calls errors cond.
            calls = map (ruleCall ConfigMaps) (ruleEntries (configMapSyncRules c) o1)
                    @ map (ruleCall Secrets) (ruleEntries (secretSyncRules c) o2)
          \<and> (\<forall>d s. configMapSyncRules c d = Some s \<and> d \<in> set o1 \<longrightarrow>
                 ruleCall ConfigMaps (d, s) \<in> set calls)
          \<and> (\<forall>d s. secretSyncRules c d = Some s \<and> d \<in> set o2 \<longrightarrow>
                 ruleCall Secrets (d, s) \<in> set calls)
          \<and> errors = concat (map (recorded e) calls)
          \<and> cond = (if errors = [] then healthyCondition else failingCondition (agg errors))
          \<and> sync agg e c o1 o2 =
              (callResp e (UpdateStatus cond), OperatorGet # calls @ [UpdateStatus cond])"
    by blast
qed

lemma sample_states: "Managed \<noteq> Unmanaged" "Managed \<noteq> Removed"
  by (simp_all add: Managed_def Unmanaged_def Removed_def)

lemma sample_entries:
  "ruleEntries (configMapSyncRules sampleController) [locA, locB]
     = [(locA, locSrc), (locB, emptyResourceLocation)]"
  "ruleEntries (secretSyncRules sampleController) [locC] = [(locC, locSrc)]"
  by (simp_all add: ruleEntries_def sampleController_def sample_locs_distinct)

lemma sample_pass:
  "sync sampleMultiLineAggregate (sampleEnv Managed) sampleController [locA, locB] [locC]
     = (None, [OperatorGet, ApplySync ConfigMaps locSrc locA, Delete ConfigMaps locB,
               ApplySync Secrets locSrc locC,
               UpdateStatus (failingCondition ''copy of a failed'')])"
  by (simp add: sync_def sampleEnv_def sample_states sample_entries sample_locs_distinct
      sampleAnswers_def failingCondition_def operatorStatusResourceSyncControllerFailing_def
      sampleErrorText_def)

theorem sync_collects_rule_errors_witness:
  "sync sampleMultiLineAggregate (sampleEnv Managed) sampleController [locA, locB] [locC]
     = (None, [OperatorGet, ApplySync ConfigMaps locSrc locA, Delete ConfigMaps locB,
               ApplySync Secrets locSrc locC,
               UpdateStatus (failingCondition ''copy of a failed'')])
   \<and> getResp (sampleEnv Managed) = Inr Managed \<and> Managed \<noteq> Unmanaged \<and> Managed \<noteq> Removed
   \<and> callResp (sampleEnv Managed) (ApplySync ConfigMaps locSrc locA)
       = Some (OtherError ''copy of a failed'')
   \<and> sync sampleMultiLineAggregate sampleEnvGetFails sampleController [locA, locB] [locC]
       = (Some (OtherError ''operator config unavailable''), [OperatorGet])"
  using sync_collects_rule_errors [of "sampleEnv Managed" sampleMultiLineAggregate sampleController
      "[locA, locB]" "[locC]"]
    sync_collects_rule_errors [of sampleEnvGetFails sampleMultiLineAggregate sampleController
      "[locA, locB]" "[locC]"]
    sample_pass
  by (simp add: sampleEnv_def sampleEnvGetFails_def sample_states sampleAnswers_def)

text \<open>
  Claim C2 as stated fails: the error of the operator state read is returned to the
  caller, and no condition update was made.
\<close>

theorem sync_returns_operator_get_error:
  "sync sampleMultiLineAggregate sampleEnvGetFails sampleController [locA, locB] [locC]
     = (Some (OtherError ''operator config unavailable''), [OperatorGet])"
  by (simp add: sync_def sampleEnvGetFails_def)

lemma recorded_not_found_delete:
  assumes "callResp e (Delete k d) = Some err" and "IsNotFound err"
  shows "recorded (e\<lparr>callResp := (callResp e)(Delete k d := None)\<rparr>) call = recorded e call"
  using assms by (cases call) auto

text \<open>
  Claim C3. In a pass that is not skipped, for a rule of either kind whose source is the
  empty location and whose destination the range visits, the delete of the destination
  is among the calls of the pass; and if that delete is answered "not found", it adds
  nothing to the collected errors: the pass makes the same calls, writes the same
  condition and returns the same result as if the delete had succeeded.
\<close>

theorem sync_delete_not_found_is_no_error:
  assumes "getResp e = Inr state" and "state \<noteq> Unmanaged" and "state \<noteq> Removed"
    and "ruleTable k c d = Some emptyResourceLocation"
    and "d \<in> set (case k of ConfigMaps \<Rightarrow> o1 | Secrets \<Rightarrow> o2)"
  shows "Delete k d \<in> set (snd (sync agg e c o1 o2))
    \<and> (\<forall>err. callResp e (Delete k d) = Some err \<and> IsNotFound err \<longrightarrow>
          recorded e (Delete k d) = []
        \<and> sync agg (e\<lparr>callResp := (callResp e)(Delete k d := None)\<rparr>) c o1 o2 = sync agg e c o1 o2)"
proof (intro conjI allI impI)
  define calls where "calls = map (ruleCall ConfigMaps) (ruleEntries (configMapSyncRules c) o1)
                    @ map (ruleCall Secrets) (ruleEntries (secretSyncRules c) o2)"
  have in_calls: "Delete k d \<in> set calls"
  proof (cases k)
    case ConfigMaps
    with assms(4,5) have "(d, emptyResourceLocation) \<in> set (ruleEntries (configMapSyncRules c) o1)"
      by (simp add: ruleEntries_member)
    then have "ruleCall ConfigMaps (d, emptyResourceLocation) \<in> set calls"
      unfolding calls_def by force
    with ConfigMaps show ?thesis by (simp add: ruleCall_def)
  next
    case Secrets
    with assms(4,5) have "(d, emptyResourceLocation) \<in> set (ruleEntries (secretSyncRules c) o2)"
      by (simp add: ruleEntries_member)
    then have "ruleCall Secrets (d, emptyResourceLocation) \<in> set calls"
      unfolding calls_def by force
    with Secrets show ?thesis by (simp add: ruleCall_def)
  qed
  have s: "sync agg e' c o1 o2 =
      (callResp e' (UpdateStatus (if concat (map (recorded e') calls) = [] then healthyCondition
           else failingCondition (agg (concat (map (recorded e') calls))))),
       OperatorGet # calls @ [UpdateStatus (if concat (map (recorded e') calls) = [] then healthyCondition
           else failingCondition (agg (concat (map (recorded e') calls))))])"
    if "getResp e' = Inr state" for e'
    by (rule sync_proceeds [where agg = agg, OF that assms(2,3) calls_def refl refl])
  show "Delete k d \<in> set (snd (sync agg e c o1 o2))"
    using in_calls by (simp add: s [OF assms(1)])
  fix err assume nf: "callResp e (Delete k d) = Some err \<and> IsNotFound err"
  then show "recorded e (Delete k d) = []" by simp
  let ?e' = "e\<lparr>callResp := (callResp e)(Delete k d := None)\<rparr>"
  have g: "getResp ?e' = Inr state" using assms(1) by simp
  have r: "map (recorded ?e') calls = map (recorded e) calls"
    using nf by (simp add: recorded_not_found_delete)
  show "sync agg ?e' c o1 o2 = sync agg e c o1 o2"
    by (simp add: s [OF g] s [OF assms(1)] r)
qed

theorem sync_delete_not_found_is_no_error_witness:
  "Delete ConfigMaps locB
     \<in> set (snd (sync sampleMultiLineAggregate (sampleEnv Managed) sampleController [locA, locB] [locC]))
   \<and> ruleTable ConfigMaps sampleController locB = Some emptyResourceLocation
   \<and> callResp (sampleEnv Managed) (Delete ConfigMaps locB) = Some (NotFound ''b'')
   \<and> IsNotFound (NotFound ''b'')
   \<and> sync sampleMultiLineAggregate
        ((sampleEnv Managed)\<lparr>callResp := (callResp (sampleEnv Managed))(Delete ConfigMaps locB := None)\<rparr>)
        sampleController [locA, locB] [locC]
     = sync sampleMultiLineAggregate (sampleEnv Managed) sampleController [locA, locB] [locC]"
proof -
  have g: "getResp (sampleEnv Managed) = Inr Managed" by (simp add: sampleEnv_def)
  have t: "ruleTable ConfigMaps sampleController locB = Some emptyResourceLocation"
    by (simp add: sampleController_def)
  have m: "locB \<in> set (case ConfigMaps of ConfigMaps \<Rightarrow> [locA, locB] | Secrets \<Rightarrow> [locC])"
    by simp
  have a: "callResp (sampleEnv Managed) (Delete ConfigMaps locB) = Some (NotFound ''b'')"
    by (simp add: sampleEnv_def sampleAnswers_def)
  from sync_delete_not_found_is_no_error [where agg = sampleMultiLineAggregate,
      OF g sample_states t m] t a
  show ?thesis by simp
qed

section \<open>Writing the bundle back\<close>

subsection \<open>The attempts of one write\<close>

lemma scripted_write:
  "writeCABundle (scriptedRotation ns name got updated created) cm w =
     (case updated cm of
        Inr actual \<Rightarrow>
          (None, w @ [EventAction ''CABundleUpdateRequired'' ''%q in %q requires a new cert'' [ns, name],
                      UpdateAction ns cm])
      | Inl err \<Rightarrow>
          if IsNotFound err
          then (case created cm of Inl err' \<Rightarrow> Some err' | Inr actual \<Rightarrow> None,
                w @ [EventAction ''CABundleUpdateRequired'' ''%q in %q requires a new cert'' [ns, name],
                     UpdateAction ns cm, CreateAction ns cm])
          else (Some err,
                w @ [EventAction ''CABundleUpdateRequired'' ''%q in %q requires a new cert'' [ns, name],
                     UpdateAction ns cm]))"
  by (simp add: writeCABundle_def scriptedRotation_def Let_def split: sum.splits)

lemma scripted_fields:
  "Lister_Get (scriptedRotation ns name got updated created) a b w = got"
  "rot_Namespace (scriptedRotation ns name got updated created) = ns"
  "rot_Name (scriptedRotation ns name got updated created) = name"
  by (simp_all add: scriptedRotation_def)

lemma ensure_cases:
  "ensureConfigMapCABundle P E now c ca w = (r, w') \<Longrightarrow>
     w' = w \<or> (\<exists>cm. writeCABundle c cm w = (r, w'))"
  by (auto simp: ensureConfigMapCABundle_def Let_def
      split: sum.splits option.splits list.splits prod.splits if_splits)

text \<open>
  Claim C7, as amended. Whatever the lister, the update and the create answer, a run
  performs no action at all, or the event and one update, or the event, one update and
  one create. The update always comes first. The create is made exactly when the update
  was answered "not found", and it is made once. The run returns the error of the last
  call it made, if that call failed: an update error other than "not found", or the
  error of the create. A failed create is followed by nothing.
\<close>

theorem ensureConfigMapCABundle_write_attempts:
  assumes "ensureConfigMapCABundle P E now (scriptedRotation ns name got updated created) ca []
             = (r, log)"
  shows "log = []
    \<or> (\<exists>cm. log = [EventAction ''CABundleUpdateRequired'' ''%q in %q requires a new cert'' [ns, name],
                     UpdateAction ns cm]
            \<and> (case updated cm of Inr actual \<Rightarrow> r = None
                | Inl err \<Rightarrow> \<not> IsNotFound err \<and> r = Some err))
    \<or> (\<exists>cm err. log = [EventAction ''CABundleUpdateRequired'' ''%q in %q requires a new cert'' [ns, name],
                     UpdateAction ns cm, CreateAction ns cm]
            \<and> updated cm = Inl err \<and> IsNotFound err
            \<and> r = (case created cm of Inl err' \<Rightarrow> Some err' | Inr actual \<Rightarrow> None))"
proof -
  from ensure_cases [OF assms] consider "log = []"
    | cm where "writeCABundle (scriptedRotation ns name got updated created) cm [] = (r, log)"
    by blast
  then show ?thesis
  proof cases
    case 1
    then show ?thesis by simp
  next
    case (2 cm)
    show ?thesis
    proof (cases "updated cm")
      case (Inr actual)
      with 2 show ?thesis by (auto simp: scripted_write)
    next
      case (Inl err)
      with 2 show ?thesis by (cases "IsNotFound err") (auto simp: scripted_write)
    qed
  qed
qed

lemma sample_fresh_manage:
  "manageCABundleConfigMap sampleParseCertsPEM sampleEncodeCertificates 10
     \<lparr>cm_ObjectMeta = emptyObjectMeta\<lparr>meta_Namespace := ''ns'', meta_Name := ''bundle''\<rparr>,
      cm_Data = None, cm_BinaryData = None\<rparr> certS = (None, sampleFreshConfigMap ''S'')"
  by (simp add: manageCABundleConfigMap_def Let_def storedBundle_def dataMap_def
      sampleFreshConfigMap_def sample_simps sample_certs)

text \<open>
  Claim C7 as stated fails: when the object is absent at the update and has been
  created by another writer at the create, the create's "already exists" error is
  returned and no update follows the create.
\<close>

theorem ensureConfigMapCABundle_create_not_retried:
  "ensureConfigMapCABundle sampleParseCertsPEM sampleEncodeCertificates 10
      sampleRecreatedRotation sampleCA []
     = (Some (AlreadyExists ''bundle''),
        [sampleEvent, UpdateAction ''ns'' (sampleFreshConfigMap ''S''),
         CreateAction ''ns'' (sampleFreshConfigMap ''S'')])"
  by (simp add: ensureConfigMapCABundle_def sampleRecreatedRotation_def scripted_write
      sample_fresh_manage sampleCA_def sampleEvent_def scripted_fields)

lemma sample_manage_A:
  "manageCABundleConfigMap sampleParseCertsPEM sampleEncodeCertificates 10
     (sampleConfigMap ''A'') certS = (None, sampleConfigMap ''S'')"
  by (simp add: manageCABundleConfigMap_def Let_def storedBundle_def dataMap_def sampleConfigMap_def
      sample_simps sample_certs)

lemma map_upd_eq_iff: "(m(k \<mapsto> a) = m(k \<mapsto> b)) = (a = b)"
  by (auto dest: map_upd_eqD1)

lemma sample_removed_run:
  "ensureConfigMapCABundle sampleParseCertsPEM sampleEncodeCertificates 10
      sampleRemovedRotation sampleCA []
     = (None, [sampleEvent, UpdateAction ''ns'' (sampleConfigMap ''S''),
               CreateAction ''ns'' (sampleConfigMap ''S'')])"
  by (simp add: ensureConfigMapCABundle_def sampleRemovedRotation_def scripted_write
      sample_manage_A sampleCA_def sampleEvent_def scripted_fields)
    (simp add: sampleConfigMap_def map_upd_eq_iff)

theorem ensureConfigMapCABundle_write_attempts_witness:
  "ensureConfigMapCABundle sampleParseCertsPEM sampleEncodeCertificates 10
      sampleRemovedRotation sampleCA []
     = (None, [sampleEvent, UpdateAction ''ns'' (sampleConfigMap ''S''),
               CreateAction ''ns'' (sampleConfigMap ''S'')])
   \<and> IsNotFound (NotFound ''bundle'')"
  using ensureConfigMapCABundle_write_attempts [OF sample_removed_run [unfolded sampleRemovedRotation_def]]
    sample_removed_run
  by simp

subsection \<open>A second run\<close>

lemma firstSeenDedup_distinct:
  "distinct (map Raw xs) \<Longrightarrow> firstSeenDedup xs = xs"
proof (induction xs)
  case Nil
  show ?case by simp
next
  case (Cons x xs)
  then have "Raw x \<notin> Raw ` set xs" by simp
  then have "\<forall>d\<in>set xs. Raw d \<noteq> Raw x" by (metis imageI)
  then have "filter (\<lambda>d. Raw d \<noteq> Raw x) xs = xs" by (simp add: filter_id_conv)
  with Cons show ?case by simp
qed

lemma rerun_keeps_list:
  assumes d: "distinct (map Raw kept)"
    and v: "\<forall>c\<in>set kept. now2 < NotAfter c"
    and h: "now2 < NotAfter signer \<longrightarrow> kept \<noteq> [] \<and> hd kept = signer"
  shows "dedupLoop (FilterExpiredCerts now2 (signer # kept)) [] = kept"
proof -
  have f: "filter (\<lambda>c. now2 < NotAfter c) kept = kept" using v by (simp add: filter_id_conv)
  show ?thesis
  proof (cases "now2 < NotAfter signer")
    case False
    then show ?thesis
      by (simp add: dedupLoop_firstSeenDedup FilterExpiredCerts_filter f firstSeenDedup_distinct [OF d])
  next
    case True
    with h obtain rest where k: "kept = signer # rest" by (cases kept) auto
    from d k have "Raw signer \<notin> Raw ` set rest" by simp
    then have "\<forall>c\<in>set rest. Raw c \<noteq> Raw signer" by (metis imageI)
    then have g: "filter (\<lambda>c. Raw c \<noteq> Raw signer) rest = rest" by (simp add: filter_id_conv)
    from d k have dr: "distinct (map Raw rest)" by simp
    from f k True have fr: "filter (\<lambda>c. now2 < NotAfter c) rest = rest" by simp
    show ?thesis
      by (simp add: dedupLoop_firstSeenDedup FilterExpiredCerts_filter True k fr g
          firstSeenDedup_distinct [OF dr])
  qed
qed

lemma manage_rerun:
  assumes m: "manageCABundleConfigMap P E now1 cm0 signer = (None, managed)"
    and same: "cm_Data cm1 = cm_Data managed"
    and codec: "\<forall>cs. E cs = Inr (storedBundle cm1) \<longrightarrow>
                  (if storedBundle cm1 = [] then cs = [] else P (storedBundle cm1) = Inr cs)"
    and time: "now1 \<le> now2"
    and valid: "\<forall>cs c. E cs = Inr (storedBundle cm1) \<and> c \<in> set cs \<longrightarrow> now2 < NotAfter c"
  shows "manageCABundleConfigMap P E now2 cm1 signer = (None, cm1)"
proof -
  from manage_success [OF m] obtain existing blob where
    enc: "E (dedupLoop (FilterExpiredCerts now1 (signer # existing)) []) = Inr blob"
    and md: "managed = cm0\<lparr>cm_Data := Some ((dataMap cm0)(''ca-bundle.crt'' \<mapsto> blob))\<rparr>"
    by blast
  define kept where "kept = dedupLoop (FilterExpiredCerts now1 (signer # existing)) []"
  have kept_eq: "kept = firstSeenDedup (filter (\<lambda>c. now1 < NotAfter c) (signer # existing))"
    by (simp add: kept_def dedupLoop_firstSeenDedup FilterExpiredCerts_filter)
  have data1: "cm_Data cm1 = Some ((dataMap cm0)(''ca-bundle.crt'' \<mapsto> blob))"
    using same md by simp
  have sb: "storedBundle cm1 = blob" using data1 by (simp add: storedBundle_def dataMap_def)
  have dm: "(dataMap cm1)(''ca-bundle.crt'' \<mapsto> blob) = dataMap cm1"
    using data1 by (simp add: dataMap_def)
  have ek: "E kept = Inr blob" using enc by (simp add: kept_def)
  have parsed: "(if length blob > 0 then P blob else Inr []) = Inr kept"
    using codec ek sb by (auto split: if_splits)
  have v: "\<forall>c\<in>set kept. now2 < NotAfter c" using valid ek sb by blast
  have d: "distinct (map Raw kept)" unfolding kept_eq by (rule distinct_firstSeenDedup)
  have h: "now2 < NotAfter signer \<longrightarrow> kept \<noteq> [] \<and> hd kept = signer"
    using time by (simp add: kept_eq)
  have again: "dedupLoop (FilterExpiredCerts now2 (signer # kept)) [] = kept"
    by (rule rerun_keeps_list [OF d v h])
  have nn: "cm_Data cm1 \<noteq> None" using data1 by simp
  have "manageCABundleConfigMap P E now2 cm1 signer
          = (None, cm1\<lparr>cm_Data := Some ((dataMap cm1)(''ca-bundle.crt'' \<mapsto> blob))\<rparr>)"
  proof (cases "blob = []")
    case True
    with parsed have "kept = []" by simp
    with True data1 again ek show ?thesis
      by (simp add: manageCABundleConfigMap_def Let_def sb del: FilterExpiredCerts.simps)
  next
    case False
    with parsed have "P blob = Inr kept" by simp
    with False data1 again ek show ?thesis
      by (simp add: manageCABundleConfigMap_def Let_def sb del: FilterExpiredCerts.simps)
  qed
  also have "cm1\<lparr>cm_Data := Some ((dataMap cm1)(''ca-bundle.crt'' \<mapsto> blob))\<rparr> = cm1"
    using dm data1 by (simp add: dataMap_def)
  finally show ?thesis .
qed

lemma manage_meta_name:
  "manageCABundleConfigMap P E now cm signer = (r, cm') \<Longrightarrow>
     meta_Name (cm_ObjectMeta cm') = meta_Name (cm_ObjectMeta cm)"
  using manage_frame [of P E now cm signer] by simp

lemma fake_first_run:
  assumes run: "ensureConfigMapCABundle P E now1 (fakeRotation ns name) ca w0 = (None, w1)"
    and certs: "Config_Certs ca = signer # rest"
    and keyed: "\<forall>cm. objects w0 (ns, name) = Some cm \<longrightarrow> meta_Name (cm_ObjectMeta cm) = name"
  shows "\<exists>cm0 managed cm1. manageCABundleConfigMap P E now1 cm0 signer = (None, managed)
           \<and> objects w1 (ns, name) = Some cm1 \<and> cm_Data cm1 = cm_Data managed"
proof (cases "objects w0 (ns, name)")
  case None
  define fresh where "fresh = \<lparr>cm_ObjectMeta = emptyObjectMeta\<lparr>meta_Namespace := ns,
        meta_Name := name\<rparr>, cm_Data = None, cm_BinaryData = None\<rparr>"
  obtain r managed where m: "manageCABundleConfigMap P E now1 fresh signer = (r, managed)"
    by (cases "manageCABundleConfigMap P E now1 fresh signer")
  have nm: "meta_Name (cm_ObjectMeta managed) = name"
    using manage_meta_name [OF m] by (simp add: fresh_def)
  from run None certs m have r: "r = None"
    by (auto simp: ensureConfigMapCABundle_def Let_def fakeRotation_def fakeGet_def fresh_def
        split: option.splits)
  from run None certs m r nm have "objects w1 (ns, name) = Some managed"
    by (auto simp: ensureConfigMapCABundle_def Let_def fakeRotation_def fakeGet_def fresh_def
        writeCABundle_def fakeUpdate_def fakeCreate_def fakeEventf_def)
  with m r show ?thesis by blast
next
  case (Some cm0)
  obtain r managed where m: "manageCABundleConfigMap P E now1 cm0 signer = (r, managed)"
    by (cases "manageCABundleConfigMap P E now1 cm0 signer")
  have nm: "meta_Name (cm_ObjectMeta managed) = name"
    using manage_meta_name [OF m] keyed Some by simp
  from run Some certs m have r: "r = None"
    by (auto simp: ensureConfigMapCABundle_def Let_def fakeRotation_def fakeGet_def
        split: option.splits)
  from run Some certs m r nm
  have "\<exists>cm1. objects w1 (ns, name) = Some cm1 \<and> cm_Data cm1 = cm_Data managed"
    by (auto simp: ensureConfigMapCABundle_def Let_def fakeRotation_def fakeGet_def
        writeCABundle_def fakeUpdate_def fakeCreate_def fakeEventf_def split: if_splits)
  with m r show ?thesis by blast
qed

text \<open>
  Claim C6, as amended. On a store that nothing else writes to, let a first run with a
  signing certificate succeed at time \<open>now1\<close>, and let a second run with the same
  certificate start from the store as the first run left it, at a time \<open>now2\<close> not
  before \<open>now1\<close> at which no certificate of the stored bundle has expired. If the
  stored blob decodes to the list that encodes to it, the second run returns no error
  and leaves the world as it found it: no event, no update and no create.
\<close>

theorem ensureConfigMapCABundle_second_run:
  assumes run: "ensureConfigMapCABundle P E now1 (fakeRotation ns name) ca w0 = (None, w1)"
    and certs: "Config_Certs ca = signer # rest"
    and keyed: "\<forall>cm. objects w0 (ns, name) = Some cm \<longrightarrow> meta_Name (cm_ObjectMeta cm) = name"
    and codec: "\<forall>cm cs. objects w1 (ns, name) = Some cm \<and> E cs = Inr (storedBundle cm) \<longrightarrow>
                  (if storedBundle cm = [] then cs = [] else P (storedBundle cm) = Inr cs)"
    and time: "now1 \<le> now2"
    and valid: "\<forall>cm cs c. objects w1 (ns, name) = Some cm \<and> E cs = Inr (storedBundle cm)
                  \<and> c \<in> set cs \<longrightarrow> now2 < NotAfter c"
  shows "ensureConfigMapCABundle P E now2 (fakeRotation ns name) ca w1 = (None, w1)"
proof -
  from fake_first_run [OF run certs keyed] obtain cm0 managed cm1 where
    m: "manageCABundleConfigMap P E now1 cm0 signer = (None, managed)"
    and o: "objects w1 (ns, name) = Some cm1"
    and same: "cm_Data cm1 = cm_Data managed"
    by blast
  have c1: "\<forall>cs. E cs = Inr (storedBundle cm1) \<longrightarrow>
                  (if storedBundle cm1 = [] then cs = [] else P (storedBundle cm1) = Inr cs)"
    using codec o by blast
  have v1: "\<forall>cs c. E cs = Inr (storedBundle cm1) \<and> c \<in> set cs \<longrightarrow> now2 < NotAfter c"
    using valid o by blast
  have again: "manageCABundleConfigMap P E now2 cm1 signer = (None, cm1)"
    by (rule manage_rerun [OF m same c1 time v1])
  have "cm_Data cm1 \<noteq> None"
    using same manage_data_not_nil [of P E now1 cm0 signer] m by simp
  then obtain data where nn: "cm_Data cm1 = Some data" by blast
  show ?thesis
    using o certs again nn
    by (simp add: ensureConfigMapCABundle_def Let_def fakeRotation_def fakeGet_def)
qed

lemma sample_block_certificate:
  "sampleBlock c = Some ch \<Longrightarrow> sampleCertificate ch = Some c"
  by (auto simp: sampleBlock_def sampleCertificate_def split: if_splits)

lemma sample_roundtrip:
  "sampleEncodeCertificates cs = Inr b \<Longrightarrow> sampleParseCertsPEM b = Inr cs"
proof (induction cs arbitrary: b)
  case Nil
  then show ?case by simp
next
  case (Cons c cs)
  then show ?case
    by (auto simp: sample_block_certificate split: option.splits sum.splits)
qed

lemma sample_encode_empty: "sampleEncodeCertificates cs = Inr [] \<Longrightarrow> cs = []"
  by (cases cs) (auto split: option.splits sum.splits)

lemma sample_data_differs:
  "b \<noteq> b' \<Longrightarrow> cm_Data (sampleConfigMap b) \<noteq> cm_Data (sampleConfigMap b')"
  by (simp add: sampleConfigMap_def map_upd_eq_iff)

lemma sample_config_map_fields:
  "meta_Name (cm_ObjectMeta (sampleConfigMap b)) = ''bundle''"
  "cm_Data (sampleConfigMap b) \<noteq> None"
  "storedBundle (sampleConfigMap b) = b"
  by (simp_all add: sampleConfigMap_def sampleMeta_def storedBundle_def dataMap_def)

lemma fake_fields:
  "Lister_Get (fakeRotation ns name) = fakeGet"
  "rot_Namespace (fakeRotation ns name) = ns"
  "rot_Name (fakeRotation ns name) = name"
  "Client_Update (fakeRotation ns name) = fakeUpdate"
  "Client_Create (fakeRotation ns name) = fakeCreate"
  "EventRecorder_Eventf (fakeRotation ns name) = fakeEventf"
  by (simp_all add: fakeRotation_def)

lemma sample_manage_early:
  "manageCABundleConfigMap sampleParseCertsPEM sampleEncodeCertificates 1
     (sampleConfigMap ''A'') certS = (None, sampleConfigMap ''SA'')"
  "manageCABundleConfigMap sampleParseCertsPEM sampleEncodeCertificates 10
     (sampleConfigMap ''SA'') certS = (None, sampleConfigMap ''S'')"
  by (simp_all add: manageCABundleConfigMap_def Let_def storedBundle_def dataMap_def
      sampleConfigMap_def sample_simps sample_certs)

lemma sample_first_run:
  "ensureConfigMapCABundle sampleParseCertsPEM sampleEncodeCertificates 1
      (fakeRotation ''ns'' ''bundle'') sampleCA (sampleStore ''A'')
     = (None, sampleStoreAfterUpdate ''SA'')"
  by (simp add: ensureConfigMapCABundle_def Let_def fake_fields fakeGet_def sampleStore_def sampleCA_def
      sample_manage_early sample_data_differs sample_config_map_fields writeCABundle_def
      fakeUpdate_def fakeEventf_def sampleStoreAfterUpdate_def sampleEvent_def)

text \<open>
  Claim C6 as stated fails: with the same signing certificate and a store that nothing
  has written to since the first run, a second run made after a certificate of the
  bundle has expired builds a different blob, records the event and updates the stored
  object.
\<close>

theorem ensureConfigMapCABundle_second_run_writes_after_expiry:
  "ensureConfigMapCABundle sampleParseCertsPEM sampleEncodeCertificates 1
      (fakeRotation ''ns'' ''bundle'') sampleCA (sampleStore ''A'')
     = (None, sampleStoreAfterUpdate ''SA'')
   \<and> ensureConfigMapCABundle sampleParseCertsPEM sampleEncodeCertificates 10
      (fakeRotation ''ns'' ''bundle'') sampleCA (sampleStoreAfterUpdate ''SA'')
     = (None, sampleStoreAfterSecondUpdate ''SA'' ''S'')"
proof -
  have "ensureConfigMapCABundle sampleParseCertsPEM sampleEncodeCertificates 10
      (fakeRotation ''ns'' ''bundle'') sampleCA (sampleStoreAfterUpdate ''SA'')
     = (None, sampleStoreAfterSecondUpdate ''SA'' ''S'')"
    by (simp add: ensureConfigMapCABundle_def Let_def fake_fields fakeGet_def sampleCA_def
      sample_manage_early sample_data_differs sample_config_map_fields writeCABundle_def
      fakeUpdate_def fakeEventf_def sampleStoreAfterUpdate_def sampleStoreAfterSecondUpdate_def
      sampleEvent_def)
  with sample_first_run show ?thesis by simp
qed

theorem ensureConfigMapCABundle_second_run_witness:
  "ensureConfigMapCABundle sampleParseCertsPEM sampleEncodeCertificates 1
      (fakeRotation ''ns'' ''bundle'') sampleCA (sampleStore ''A'')
     = (None, sampleStoreAfterUpdate ''SA'')
   \<and> ensureConfigMapCABundle sampleParseCertsPEM sampleEncodeCertificates 3
      (fakeRotation ''ns'' ''bundle'') sampleCA (sampleStoreAfterUpdate ''SA'')
     = (None, sampleStoreAfterUpdate ''SA'')
   \<and> sampleParseCertsPEM ''SA'' = Inr [certS, certA]
   \<and> 3 < NotAfter certS \<and> 3 < NotAfter certA"
proof -
  have certs: "Config_Certs sampleCA = certS # []" by (simp add: sampleCA_def)
  have keyed: "\<forall>cm. objects (sampleStore ''A'') (''ns'', ''bundle'') = Some cm \<longrightarrow>
      meta_Name (cm_ObjectMeta cm) = ''bundle''"
    by (simp add: sampleStore_def sample_config_map_fields)
  have o: "objects (sampleStoreAfterUpdate ''SA'') (''ns'', ''bundle'') = Some (sampleConfigMap ''SA'')"
    by (simp add: sampleStoreAfterUpdate_def)
  have p: "sampleParseCertsPEM ''SA'' = Inr [certS, certA]" by (simp add: sample_simps)
  have codec: "\<forall>cm cs. objects (sampleStoreAfterUpdate ''SA'') (''ns'', ''bundle'') = Some cm
        \<and> sampleEncodeCertificates cs = Inr (storedBundle cm) \<longrightarrow>
      (if storedBundle cm = [] then cs = [] else sampleParseCertsPEM (storedBundle cm) = Inr cs)"
    by (auto simp: o sample_config_map_fields dest: sample_roundtrip)
  have valid: "\<forall>cm cs c. objects (sampleStoreAfterUpdate ''SA'') (''ns'', ''bundle'') = Some cm
        \<and> sampleEncodeCertificates cs = Inr (storedBundle cm) \<and> c \<in> set cs \<longrightarrow> 3 < NotAfter c"
  proof (intro allI impI)
    fix cm cs c
    assume a: "objects (sampleStoreAfterUpdate ''SA'') (''ns'', ''bundle'') = Some cm
        \<and> sampleEncodeCertificates cs = Inr (storedBundle cm) \<and> c \<in> set cs"
    then have "sampleEncodeCertificates cs = Inr ''SA''" by (auto simp: o sample_config_map_fields)
    from sample_roundtrip [OF this] p have "cs = [certS, certA]" by simp
    with a show "3 < NotAfter c" by (auto simp: sample_certs)
  qed
  have time: "(1::int) \<le> 3" by simp
  from ensureConfigMapCABundle_second_run [where P = sampleParseCertsPEM
      and E = sampleEncodeCertificates, OF sample_first_run certs keyed codec time valid]
    sample_first_run p
  show ?thesis by (simp add: sample_certs)
qed

end
